theory Spec2Isabelle
  imports Complex_Main "HOL-Library.Sublist"
begin

section \<open>Python values\<close>

text \<open>
  The records that \<^verbatim>\<open>capture_network.py\<close> handles are the values \<^verbatim>\<open>json.loads\<close>
  produces: \<^verbatim>\<open>None\<close>, booleans, unbounded integers, floats, strings, lists and
  dictionaries with string keys. A dictionary is an association list in insertion order,
  read with \<open>map_of\<close>. A float is a finite value (a rational: every finite float
  is one), an infinity with its sign (\<open>True\<close> for the negative one), or not-a-number;
  only truthiness and \<^verbatim>\<open>int()\<close> read it.
\<close>

datatype pyfloat = FloatFin rat | FloatInf bool | FloatNaN

datatype json =
    JNull
  | JBool bool
  | JInt int
  | JFloat pyfloat
  | JStr string
  | JList "json list"
  | JDict "(string \<times> json) list"

text \<open>The exceptions the modelled functions can raise.\<close>

datatype pyerr = AttributeError | TypeError | ValueError | OverflowError | ReError

text \<open>
  Library functions the source calls but does not define are parameters: \<^verbatim>\<open>re.compile\<close>
  (\<open>None\<close> when the pattern is rejected, otherwise the pattern's \<^verbatim>\<open>search\<close> as a
  predicate on the subject string), \<^verbatim>\<open>str.upper\<close>, \<^verbatim>\<open>str()\<close> of a value that is
  not a string, \<^verbatim>\<open>int()\<close> of a string (\<open>None\<close> for ValueError), \<^verbatim>\<open>json.loads\<close>
  (\<open>None\<close> when it raises) and \<^verbatim>\<open>json.dumps(_, ensure_ascii=False)\<close>.
\<close>

record pylib =
  re_compile :: "string \<Rightarrow> (string \<Rightarrow> bool) option"
  str_upper :: "string \<Rightarrow> string"
  str_of :: "json \<Rightarrow> string"
  int_of_str :: "string \<Rightarrow> int option"
  json_loads :: "string \<Rightarrow> json option"
  json_dumps :: "json \<Rightarrow> string"

text \<open>Truth value testing: \<^verbatim>\<open>None\<close>, \<^verbatim>\<open>False\<close>, zero and empty containers are falsy.\<close>

fun truthy :: "json \<Rightarrow> bool" where
  "truthy JNull = False"
| "truthy (JBool b) = b"
| "truthy (JInt i) = (i \<noteq> 0)"
| "truthy (JFloat f) = (f \<noteq> FloatFin 0)"
| "truthy (JStr s) = (s \<noteq> [])"
| "truthy (JList xs) = (xs \<noteq> [])"
| "truthy (JDict kvs) = (kvs \<noteq> [])"

text \<open>\<^verbatim>\<open>a or b\<close>: the first operand when it is truthy, the second otherwise.\<close>

definition py_or :: "json \<Rightarrow> json \<Rightarrow> json" where
  "py_or a b = (if truthy a then a else b)"

text \<open>
  \<^verbatim>\<open>d.get(k)\<close>: the value, or \<^verbatim>\<open>None\<close> for a missing key; a receiver that is not a
  dictionary has no \<^verbatim>\<open>get\<close> and raises AttributeError.
\<close>

definition py_get :: "json \<Rightarrow> string \<Rightarrow> pyerr + json" where
  "py_get d k =
     (case d of
        JDict kvs \<Rightarrow> Inr (case map_of kvs k of None \<Rightarrow> JNull | Some v \<Rightarrow> v)
      | _ \<Rightarrow> Inl AttributeError)"

text \<open>\<^verbatim>\<open>str(v)\<close>: a string is its own text; the rest is the library's.\<close>

definition py_str :: "pylib \<Rightarrow> json \<Rightarrow> string" where
  "py_str L v = (case v of JStr s \<Rightarrow> s | _ \<Rightarrow> str_of L v)"

text \<open>Truncation toward zero, as \<^verbatim>\<open>int()\<close> does on a finite float.\<close>

definition trunc_rat :: "rat \<Rightarrow> int" where
  "trunc_rat q = (if 0 \<le> q then \<lfloor>q\<rfloor> else \<lceil>q\<rceil>)"

text \<open>
  \<^verbatim>\<open>int(v)\<close>: TypeError for \<^verbatim>\<open>None\<close>, lists and dictionaries, ValueError for a string
  that is not an integer literal and for not-a-number, OverflowError for an infinity.
\<close>

fun py_int :: "pylib \<Rightarrow> json \<Rightarrow> pyerr + int" where
  "py_int L JNull = Inl TypeError"
| "py_int L (JBool b) = Inr (if b then 1 else 0)"
| "py_int L (JInt i) = Inr i"
| "py_int L (JFloat (FloatFin q)) = Inr (trunc_rat q)"
| "py_int L (JFloat (FloatInf s)) = Inl OverflowError"
| "py_int L (JFloat FloatNaN) = Inl ValueError"
| "py_int L (JStr s) = (case int_of_str L s of None \<Rightarrow> Inl ValueError | Some n \<Rightarrow> Inr n)"
| "py_int L (JList xs) = Inl TypeError"
| "py_int L (JDict kvs) = Inl TypeError"

section \<open>The record filter\<close>

text \<open>
  \<^verbatim>\<open>(request_record.get(outer) or {}).get(inner)\<close>: the nested lookup of
  \<^verbatim>\<open>filter_network_requests\<close>.
\<close>

definition nested_get :: "json \<Rightarrow> string \<Rightarrow> string \<Rightarrow> pyerr + json" where
  "nested_get r outer inner =
     (case py_get r outer of
        Inl e \<Rightarrow> Inl e
      | Inr c \<Rightarrow> py_get (py_or c (JDict [])) inner)"

text \<open>
  \<^verbatim>\<open>nested or request_record.get(field)\<close>: the nested value when truthy, the flat
  top-level field otherwise.
\<close>

definition resolve_field :: "json \<Rightarrow> string \<Rightarrow> string \<Rightarrow> pyerr + json" where
  "resolve_field r outer field =
     (case nested_get r outer field of
        Inl e \<Rightarrow> Inl e
      | Inr n \<Rightarrow>
          (if truthy n then Inr n
           else case py_get r field of Inl e \<Rightarrow> Inl e | Inr f \<Rightarrow> Inr f))"

text \<open>
  \<^verbatim>\<open>if cond: continue\<close> followed by the rest of the loop body. The result is
  \<open>Inr True\<close> when the record reaches \<^verbatim>\<open>append\<close>, \<open>Inr False\<close> when a
  \<^verbatim>\<open>continue\<close> skips it, \<open>Inl e\<close> when an exception leaves the function.
\<close>

definition skip_if :: "pyerr + bool \<Rightarrow> pyerr + bool \<Rightarrow> pyerr + bool" where
  "skip_if cond rest =
     (case cond of Inl e \<Rightarrow> Inl e | Inr True \<Rightarrow> Inr False | Inr False \<Rightarrow> rest)"

text \<open>
  \<^verbatim>\<open>compiled_url_pattern and not compiled_url_pattern.search(url_value)\<close>; \<^verbatim>\<open>search\<close>
  raises TypeError on a subject that is not a string.
\<close>

definition url_mismatch :: "(string \<Rightarrow> bool) option \<Rightarrow> json \<Rightarrow> pyerr + bool" where
  "url_mismatch compiled_url_pattern url_value =
     (case compiled_url_pattern of
        None \<Rightarrow> Inr False
      | Some search \<Rightarrow>
          (case url_value of JStr s \<Rightarrow> Inr (\<not> search s) | _ \<Rightarrow> Inl TypeError))"

text \<open>
  \<^verbatim>\<open>method_filter_upper and (not method_value or str(method_value).upper() != method_filter_upper)\<close>
\<close>

definition method_mismatch :: "pylib \<Rightarrow> string option \<Rightarrow> json \<Rightarrow> bool" where
  "method_mismatch L method_filter_upper method_value =
     (case method_filter_upper of
        None \<Rightarrow> False
      | Some m \<Rightarrow>
          m \<noteq> [] \<and> (\<not> truthy method_value \<or> str_upper L (py_str L method_value) \<noteq> m))"

text \<open>
  \<^verbatim>\<open>if status_min is not None and status_value is not None:\<close> with its
  \<^verbatim>\<open>try: if int(status_value) < status_min: continue\<close> and
  \<^verbatim>\<open>except (TypeError, ValueError): pass\<close>. Any other exception of \<^verbatim>\<open>int()\<close> leaves
  the function.
\<close>

definition below_min :: "pylib \<Rightarrow> int option \<Rightarrow> json \<Rightarrow> pyerr + bool" where
  "below_min L status_min status_value =
     (case status_min of
        None \<Rightarrow> Inr False
      | Some lo \<Rightarrow>
          (if status_value = JNull then Inr False
           else case py_int L status_value of
                  Inr n \<Rightarrow> Inr (n < lo)
                | Inl e \<Rightarrow> (if e = TypeError \<or> e = ValueError then Inr False else Inl e)))"

text \<open>The same block for \<^verbatim>\<open>int(status_value) > status_max\<close>.\<close>

definition above_max :: "pylib \<Rightarrow> int option \<Rightarrow> json \<Rightarrow> pyerr + bool" where
  "above_max L status_max status_value =
     (case status_max of
        None \<Rightarrow> Inr False
      | Some hi \<Rightarrow>
          (if status_value = JNull then Inr False
           else case py_int L status_value of
                  Inr n \<Rightarrow> Inr (n > hi)
                | Inl e \<Rightarrow> (if e = TypeError \<or> e = ValueError then Inr False else Inl e)))"

text \<open>
  The body of the \<^verbatim>\<open>for\<close> loop for one record: the three fields are resolved, the
  URL with its final \<^verbatim>\<open>or ""\<close>, then the four checks run in the source's order.
\<close>

definition keep_record ::
  "pylib \<Rightarrow> (string \<Rightarrow> bool) option \<Rightarrow> string option \<Rightarrow> int option \<Rightarrow> int option
    \<Rightarrow> json \<Rightarrow> pyerr + bool" where
  "keep_record L compiled_url_pattern method_filter_upper status_min status_max request_record =
     (case resolve_field request_record ''request'' ''url'' of
        Inl e \<Rightarrow> Inl e
      | Inr u \<Rightarrow>
     (case resolve_field request_record ''request'' ''method'' of
        Inl e \<Rightarrow> Inl e
      | Inr method_value \<Rightarrow>
     (case resolve_field request_record ''response'' ''status'' of
        Inl e \<Rightarrow> Inl e
      | Inr status_value \<Rightarrow>
          skip_if (url_mismatch compiled_url_pattern (py_or u (JStr [])))
         (skip_if (Inr (method_mismatch L method_filter_upper method_value))
         (skip_if (below_min L status_min status_value)
         (skip_if (above_max L status_max status_value)
            (Inr True)))))))"

text \<open>The loop, with \<^verbatim>\<open>filtered_records\<close> as the accumulator that \<^verbatim>\<open>append\<close> extends.\<close>

fun filter_loop ::
  "pylib \<Rightarrow> (string \<Rightarrow> bool) option \<Rightarrow> string option \<Rightarrow> int option \<Rightarrow> int option
    \<Rightarrow> json list \<Rightarrow> json list \<Rightarrow> pyerr + json list" where
  "filter_loop L p m lo hi filtered_records [] = Inr filtered_records"
| "filter_loop L p m lo hi filtered_records (request_record # rest) =
     (case keep_record L p m lo hi request_record of
        Inl e \<Rightarrow> Inl e
      | Inr keep \<Rightarrow>
          filter_loop L p m lo hi
            (if keep then filtered_records @ [request_record] else filtered_records) rest)"

text \<open>
  \<^verbatim>\<open>re.compile(url_regex) if url_regex else None\<close>: an absent or empty pattern
  compiles nothing; a pattern the library rejects raises.
\<close>

definition compile_url_pattern ::
  "pylib \<Rightarrow> string option \<Rightarrow> pyerr + (string \<Rightarrow> bool) option" where
  "compile_url_pattern L url_regex =
     (case url_regex of
        None \<Rightarrow> Inr None
      | Some rx \<Rightarrow>
          (if rx = [] then Inr None
           else case re_compile L rx of None \<Rightarrow> Inl ReError | Some s \<Rightarrow> Inr (Some s)))"

text \<open>\<^verbatim>\<open>method_filter.upper() if method_filter else None\<close>\<close>

definition upper_method_filter :: "pylib \<Rightarrow> string option \<Rightarrow> string option" where
  "upper_method_filter L method_filter =
     (case method_filter of
        None \<Rightarrow> None
      | Some mf \<Rightarrow> if mf = [] then None else Some (str_upper L mf))"

text \<open>
  \<^verbatim>\<open>filter_network_requests\<close>: \<^verbatim>\<open>None\<close> for the records gives the empty list before
  anything else runs; the pattern is compiled before the loop starts.
\<close>

definition filter_network_requests ::
  "pylib \<Rightarrow> json list option \<Rightarrow> string option \<Rightarrow> string option \<Rightarrow> int option \<Rightarrow> int option
    \<Rightarrow> pyerr + json list" where
  "filter_network_requests L request_records url_regex method_filter status_min status_max =
     (case request_records of
        None \<Rightarrow> Inr []
      | Some records \<Rightarrow>
          (case compile_url_pattern L url_regex of
             Inl e \<Rightarrow> Inl e
           | Inr compiled_url_pattern \<Rightarrow>
               filter_loop L compiled_url_pattern (upper_method_filter L method_filter)
                 status_min status_max [] records))"

text \<open>
  The records the filter is written for: a mapping whose \<^verbatim>\<open>request\<close> and \<^verbatim>\<open>response\<close>
  entries, where present, are mappings themselves (or falsy, which the source's
  \<^verbatim>\<open>or {}\<close> replaces by an empty mapping).
\<close>

definition is_mapping :: "json \<Rightarrow> bool" where
  "is_mapping v = (case v of JDict kvs \<Rightarrow> True | _ \<Rightarrow> False)"

definition sub_mapping_ok :: "(string \<times> json) list \<Rightarrow> string \<Rightarrow> bool" where
  "sub_mapping_ok kvs k =
     (case map_of kvs k of None \<Rightarrow> True | Some c \<Rightarrow> is_mapping c \<or> \<not> truthy c)"

definition is_request_record :: "json \<Rightarrow> bool" where
  "is_request_record r =
     (case r of
        JDict kvs \<Rightarrow> sub_mapping_ok kvs ''request'' \<and> sub_mapping_ok kvs ''response''
      | _ \<Rightarrow> False)"

section \<open>The result normalizer\<close>

text \<open>
  A content entry of a tool result is either an object read through its attributes
  (\<^verbatim>\<open>getattr\<close>, \<^verbatim>\<open>hasattr\<close>) or a dictionary read through \<^verbatim>\<open>get\<close>. An object that is
  neither carries attributes only, possibly none. A dictionary has no attribute named
  \<^verbatim>\<open>type\<close>, \<^verbatim>\<open>json\<close> or \<^verbatim>\<open>text\<close>.
\<close>

datatype content_entry =
    Object "(string \<times> json) list"
  | Mapping "(string \<times> json) list"

record call_tool_result =
  content :: "content_entry list option"

text \<open>
  \<^verbatim>\<open>content_type = getattr(content_entry, "type", None)\<close>, then for a dictionary
  \<^verbatim>\<open>content_entry.get("type")\<close>.
\<close>

definition content_type_of :: "content_entry \<Rightarrow> json" where
  "content_type_of content_entry =
     (case content_entry of
        Object attrs \<Rightarrow> (case map_of attrs ''type'' of None \<Rightarrow> JNull | Some v \<Rightarrow> v)
      | Mapping kvs \<Rightarrow> (case map_of kvs ''type'' of None \<Rightarrow> JNull | Some v \<Rightarrow> v))"

text \<open>
  The \<^verbatim>\<open>"json"\<close> branch: the attribute when the object has one, the dictionary's entry
  (\<^verbatim>\<open>None\<close> when missing) for a dictionary, \<^verbatim>\<open>None\<close> otherwise.
\<close>

definition json_branch :: "content_entry \<Rightarrow> json" where
  "json_branch content_entry =
     (case content_entry of
        Object attrs \<Rightarrow> (case map_of attrs ''json'' of Some v \<Rightarrow> v | None \<Rightarrow> JNull)
      | Mapping kvs \<Rightarrow> (case map_of kvs ''json'' of None \<Rightarrow> JNull | Some v \<Rightarrow> v))"

text \<open>
  The \<^verbatim>\<open>"text"\<close> branch: \<^verbatim>\<open>text_payload\<close> is the attribute or the entry, with
  \<^verbatim>\<open>or ""\<close>, and the empty string when there is neither.
\<close>

definition text_payload_of :: "content_entry \<Rightarrow> json" where
  "text_payload_of content_entry =
     (case content_entry of
        Object attrs \<Rightarrow>
          (case map_of attrs ''text'' of Some v \<Rightarrow> py_or v (JStr []) | None \<Rightarrow> JStr [])
      | Mapping kvs \<Rightarrow>
          py_or (case map_of kvs ''text'' of None \<Rightarrow> JStr [] | Some v \<Rightarrow> v) (JStr []))"

text \<open>
  \<^verbatim>\<open>try: return json.loads(text_payload) except Exception: return {"text": text_payload}\<close>;
  \<^verbatim>\<open>json.loads\<close> raises TypeError on a payload that is not a string.
\<close>

definition text_branch :: "pylib \<Rightarrow> json \<Rightarrow> json" where
  "text_branch L text_payload =
     (case (case text_payload of JStr s \<Rightarrow> json_loads L s | _ \<Rightarrow> None) of
        Some v \<Rightarrow> v
      | None \<Rightarrow> JDict [(''text'', text_payload)])"

text \<open>The \<^verbatim>\<open>for content_entry in result.content\<close> loop; falling out of it returns \<^verbatim>\<open>None\<close>.\<close>

fun extract_loop :: "pylib \<Rightarrow> content_entry list \<Rightarrow> json" where
  "extract_loop L [] = JNull"
| "extract_loop L (content_entry # rest) =
     (let content_type = content_type_of content_entry in
      if content_type = JStr ''json'' then json_branch content_entry
      else if content_type = JStr ''text'' then text_branch L (text_payload_of content_entry)
      else extract_loop L rest)"

text \<open>\<^verbatim>\<open>extract_tool_result_json\<close>; the result \<^verbatim>\<open>None\<close> is \<open>JNull\<close>.\<close>

definition extract_tool_result_json :: "pylib \<Rightarrow> call_tool_result option \<Rightarrow> json" where
  "extract_tool_result_json L result =
     (case result of
        None \<Rightarrow> JNull
      | Some r \<Rightarrow> (case content r of None \<Rightarrow> JNull | Some entries \<Rightarrow> extract_loop L entries))"

text \<open>
  The end of \<^verbatim>\<open>NetworkCaptureClient.capture_network_requests\<close>, after
  \<^verbatim>\<open>network_payload = extract_tool_result_json(call_result)\<close>: the payload is normalized
  to a list.
\<close>

definition normalize_to_list :: "json \<Rightarrow> json list" where
  "normalize_to_list network_payload =
     (case network_payload of
        JNull \<Rightarrow> []
      | JList items \<Rightarrow> items
      | JDict kvs \<Rightarrow>
          (case map_of kvs ''requests'' of
             Some (JList items) \<Rightarrow> items
           | _ \<Rightarrow> [network_payload])
      | _ \<Rightarrow> [JDict [(''value'', network_payload)]])"

text \<open>The entry's field by name, whether attribute or dictionary entry.\<close>

definition entry_field :: "content_entry \<Rightarrow> string \<Rightarrow> json option" where
  "entry_field e k = (case e of Object attrs \<Rightarrow> map_of attrs k | Mapping kvs \<Rightarrow> map_of kvs k)"

text \<open>An entry whose tag is one of the two the normalizer knows.\<close>

definition known_tag :: "content_entry \<Rightarrow> bool" where
  "known_tag e = (entry_field e ''type'' = Some (JStr ''json'')
                \<or> entry_field e ''type'' = Some (JStr ''text''))"

section \<open>Serialization to newline-delimited JSON\<close>

definition newline :: char where
  "newline = CHR 0x0A"

text \<open>\<^verbatim>\<open>serialize_to_jsonl\<close>, with \<^verbatim>\<open>json.dumps(_, ensure_ascii=False)\<close> from the library.\<close>

definition serialize_to_jsonl :: "pylib \<Rightarrow> json \<Rightarrow> string" where
  "serialize_to_jsonl L payload =
     (case payload of
        JNull \<Rightarrow> []
      | JDict kvs \<Rightarrow> json_dumps L payload @ [newline]
      | JList items \<Rightarrow> concat (map (\<lambda>item. json_dumps L item @ [newline]) items)
      | _ \<Rightarrow> json_dumps L (JDict [(''value'', payload)]) @ [newline])"

text \<open>
  Splitting a text into its lines: each newline ends a line, and text after the last
  newline, if any, is a last line. This is how a newline-delimited file is read back.
\<close>

fun split_lines_from :: "string \<Rightarrow> string \<Rightarrow> string list" where
  "split_lines_from line [] = (if line = [] then [] else [line])"
| "split_lines_from line (c # cs) =
     (if c = newline then line # split_lines_from [] cs
      else split_lines_from (line @ [c]) cs)"

definition split_lines :: "string \<Rightarrow> string list" where
  "split_lines s = split_lines_from [] s"

section \<open>The retry wrapper\<close>

text \<open>
  What one \<^verbatim>\<open>await client_session.call_tool(...)\<close> does: it returns a result, raises an
  exception that \<^verbatim>\<open>except Exception\<close> catches, or raises one that it does not catch (a
  \<^verbatim>\<open>BaseException\<close> such as a cancellation). The remote service is a function from the
  number of calls made so far to the outcome of the next call.
\<close>

datatype ('e, 'r) outcome = Returns 'r | RaisesException 'e | RaisesBase 'e

text \<open>
  How \<^verbatim>\<open>call_tool_with_retry\<close> ends when it does not return: an exception of the service
  or of \<^verbatim>\<open>asyncio.sleep\<close> passes through, the final \<^verbatim>\<open>RuntimeError\<close> is raised
  \<^verbatim>\<open>from last_exception\<close> (its cause), or a built-in exception is raised by the wrapper's
  own arithmetic.
\<close>

datatype 'e retry_error = Propagated 'e | RuntimeError "'e option" | Builtin pyerr

text \<open>
  The effects: the calls made, and for every retry the attempt number of the warning that
  is logged together with the seconds passed to \<^verbatim>\<open>asyncio.sleep\<close>, in order.
\<close>

record retry_state =
  calls :: nat
  sleeps :: "(nat \<times> pyfloat) list"

text \<open>
  \<^verbatim>\<open>backoff_seconds * (2 ** k)\<close> for an exponent \<open>k\<close> whose power of two converts to a
  float (\<open>k < 1024\<close>): the product of a finite float and a power of two is exact unless it
  leaves the float range, where it is an infinity of the same sign; an infinity stays, and
  so does not-a-number.
\<close>

definition float_times_pow2 :: "pyfloat \<Rightarrow> nat \<Rightarrow> pyfloat" where
  "float_times_pow2 x k =
     (case x of
        FloatFin q \<Rightarrow>
          (if \<bar>q * 2 ^ k\<bar> < 2 ^ 1024 then FloatFin (q * 2 ^ k) else FloatInf (q < 0))
      | FloatInf s \<Rightarrow> FloatInf s
      | FloatNaN \<Rightarrow> FloatNaN)"

text \<open>
  The \<^verbatim>\<open>while attempt_index <= retries\<close> loop together with the \<^verbatim>\<open>raise\<close> that follows
  it. \<^verbatim>\<open>attempt_index\<close> starts at 0 and only grows, so it is a natural number;
  \<^verbatim>\<open>retries\<close> is any integer. In the handler, the integer \<^verbatim>\<open>2 ** (attempt_index - 1)\<close>
  is converted to a float for the product, which raises OverflowError from \<open>2 ^ 1024\<close> on;
  the exception leaves the function, as does one raised by \<^verbatim>\<open>await asyncio.sleep(...)\<close>
  (\<open>asyncio_sleep\<close> gives, for the attempt number and the seconds, the exception it
  raises, if any).
\<close>

function call_tool_loop ::
  "(nat \<Rightarrow> ('e, 'r) outcome) \<Rightarrow> (nat \<Rightarrow> pyfloat \<Rightarrow> 'e option) \<Rightarrow> int \<Rightarrow> pyfloat \<Rightarrow> nat
    \<Rightarrow> 'e option \<Rightarrow> retry_state \<Rightarrow> ('e retry_error + 'r) \<times> retry_state" where
  "call_tool_loop call_tool asyncio_sleep retries backoff_seconds attempt_index last_exception st =
     (if int attempt_index \<le> retries then
        (case call_tool (calls st) of
           Returns r \<Rightarrow> (Inr r, st\<lparr>calls := calls st + 1\<rparr>)
         | RaisesBase e \<Rightarrow> (Inl (Propagated e), st\<lparr>calls := calls st + 1\<rparr>)
         | RaisesException exc \<Rightarrow>
             (if int (attempt_index + 1) > retries
              then (Inl (RuntimeError (Some exc)), st\<lparr>calls := calls st + 1\<rparr>)
              else if 1024 \<le> attempt_index + 1 - 1
              then (Inl (Builtin OverflowError), st\<lparr>calls := calls st + 1\<rparr>)
              else
                (case asyncio_sleep (attempt_index + 1)
                        (float_times_pow2 backoff_seconds (attempt_index + 1 - 1)) of
                   Some e \<Rightarrow>
                     (Inl (Propagated e),
                      st\<lparr>calls := calls st + 1,
                          sleeps := sleeps st @
                            [(attempt_index + 1,
                              float_times_pow2 backoff_seconds (attempt_index + 1 - 1))]\<rparr>)
                 | None \<Rightarrow>
                     call_tool_loop call_tool asyncio_sleep retries backoff_seconds
                       (attempt_index + 1) (Some exc)
                       (st\<lparr>calls := calls st + 1,
                           sleeps := sleeps st @
                             [(attempt_index + 1,
                               float_times_pow2 backoff_seconds (attempt_index + 1 - 1))]\<rparr>))))
      else (Inl (RuntimeError last_exception), st))"
  by pat_completeness auto
termination
  by (relation "measure (\<lambda>(call_tool, asyncio_sleep, retries, backoff_seconds, attempt_index,
                            last_exception, st). nat (retries + 1 - int attempt_index))") auto

text \<open>\<^verbatim>\<open>call_tool_with_retry\<close>: \<^verbatim>\<open>attempt_index = 0\<close>, \<^verbatim>\<open>last_exception = None\<close>.\<close>

definition call_tool_with_retry ::
  "(nat \<Rightarrow> ('e, 'r) outcome) \<Rightarrow> (nat \<Rightarrow> pyfloat \<Rightarrow> 'e option) \<Rightarrow> int \<Rightarrow> pyfloat
    \<Rightarrow> ('e retry_error + 'r) \<times> retry_state" where
  "call_tool_with_retry call_tool asyncio_sleep retries backoff_seconds =
     call_tool_loop call_tool asyncio_sleep retries backoff_seconds 0 None
       \<lparr>calls = 0, sleeps = []\<rparr>"

text \<open>The retries that precede attempt number \<open>k + 1\<close>: one per failed attempt \<open>1, ..., k\<close>.\<close>

definition backoff_schedule :: "pyfloat \<Rightarrow> nat \<Rightarrow> (nat \<times> pyfloat) list" where
  "backoff_schedule base_delay k =
     map (\<lambda>a. (a, float_times_pow2 base_delay (a - 1))) [1..<Suc k]"

section \<open>Output path expansion\<close>

text \<open>
  \<^verbatim>\<open>dt.datetime.now()\<close> reads the clock; the local time it returns is a parameter of the
  model. A \<^verbatim>\<open>datetime\<close> has a year from 1 to 9999; the formatting below is that of
  \<^verbatim>\<open>strftime\<close> for the years that are written with four digits.
\<close>

record datetime =
  dt_year :: nat
  dt_month :: nat
  dt_day :: nat
  dt_hour :: nat
  dt_minute :: nat
  dt_second :: nat


definition digit_char :: "nat \<Rightarrow> char" where
  "digit_char d = ''0123456789'' ! (d mod 10)"


text \<open>\<^verbatim>\<open>%m\<close>, \<^verbatim>\<open>%d\<close>, \<^verbatim>\<open>%H\<close>, \<^verbatim>\<open>%M\<close>, \<^verbatim>\<open>%S\<close>: two digits, zero-padded.\<close>

definition pad2 :: "nat \<Rightarrow> string" where
  "pad2 n = [digit_char (n div 10), digit_char n]"

text \<open>\<^verbatim>\<open>%Y\<close>: the year in four digits.\<close>

definition pad4 :: "nat \<Rightarrow> string" where
  "pad4 n = [digit_char (n div 1000), digit_char (n div 100), digit_char (n div 10), digit_char n]"

text \<open>\<^verbatim>\<open>timestamp_yyyymmdd_hhmmss\<close>: \<^verbatim>\<open>now().strftime("%Y%m%d_%H%M%S")\<close>.\<close>

definition timestamp_yyyymmdd_hhmmss :: "datetime \<Rightarrow> string" where
  "timestamp_yyyymmdd_hhmmss now =
     pad4 (dt_year now) @ pad2 (dt_month now) @ pad2 (dt_day now) @ ''_'' @
     pad2 (dt_hour now) @ pad2 (dt_minute now) @ pad2 (dt_second now)"

text \<open>
  \<^verbatim>\<open>s.replace(old, new)\<close>: every occurrence of \<^verbatim>\<open>old\<close>, found from left to right without
  overlap, is replaced; an empty \<^verbatim>\<open>old\<close> matches before every character and at the end.
\<close>

function str_replace :: "string \<Rightarrow> string \<Rightarrow> string \<Rightarrow> string" where
  "str_replace old new s =
     (if old = [] then new @ concat (map (\<lambda>c. c # new) s)
      else if s = [] then []
      else if prefix old s then new @ str_replace old new (drop (length old) s)
      else hd s # str_replace old new (tl s))"
  by pat_completeness auto
termination
  by (relation "measure (\<lambda>(old, new, s). length s)") auto

text \<open>
  What \<^verbatim>\<open>os.path.expanduser\<close> reads from the system, on POSIX: the \<^verbatim>\<open>HOME\<close> variable,
  the home directory of the current user in the password database, and the home
  directory of a user given by name (\<open>None\<close> when there is no entry).
\<close>

record os_env =
  env_home :: "string option"
  pw_dir_uid :: "string option"
  pw_dir_name :: "string \<Rightarrow> string option"

definition rstrip_slash :: "string \<Rightarrow> string" where
  "rstrip_slash h = rev (dropWhile (\<lambda>c. c = CHR ''/'') (rev h))"

text \<open>
  \<^verbatim>\<open>os.path.expanduser\<close> on POSIX: a path that does not start with \<^verbatim>\<open>~\<close> is unchanged;
  otherwise the text between \<^verbatim>\<open>~\<close> and the first \<^verbatim>\<open>/\<close> names the user (empty: the current
  user), an unknown user leaves the path unchanged, and the home directory without its
  trailing slashes replaces the part before the first \<^verbatim>\<open>/\<close>; an empty result is \<^verbatim>\<open>/\<close>.
\<close>

definition expanduser :: "os_env \<Rightarrow> string \<Rightarrow> string" where
  "expanduser E path =
     (if \<not> prefix ''~'' path then path
      else
        (let name = takeWhile (\<lambda>c. c \<noteq> CHR ''/'') (tl path);
             rest = dropWhile (\<lambda>c. c \<noteq> CHR ''/'') (tl path);
             userhome =
               (if name = []
                then (case env_home E of Some h \<Rightarrow> Some h | None \<Rightarrow> pw_dir_uid E)
                else pw_dir_name E name)
         in case userhome of
              None \<Rightarrow> path
            | Some h \<Rightarrow> (let r = rstrip_slash h @ rest in if r = [] then ''/'' else r)))"

text \<open>\<^verbatim>\<open>expand_output_path_template\<close>\<close>

definition expand_output_path_template :: "os_env \<Rightarrow> datetime \<Rightarrow> string \<Rightarrow> string" where
  "expand_output_path_template E now path_template =
     expanduser E (str_replace ''{ts}'' (timestamp_yyyymmdd_hhmmss now) path_template)"


section \<open>A sample library and sample records\<close>

text \<open>
  An instance of the library parameters for running the functions on concrete inputs:
  patterns without metacharacters (search is \<open>sublist\<close>, the substring test), ASCII letters, unsigned
  decimal integer literals, and the JSON texts of two sample values (any other text is
  not parsed, any other value has no text here). The sample records follow the shapes the browser
  service reports: nested \<^verbatim>\<open>request\<close> and \<^verbatim>\<open>response\<close> mappings, or flat fields.
\<close>

definition ascii_upper :: "char \<Rightarrow> char" where
  "ascii_upper c =
     (let n = (of_char c :: nat) in
      if 97 \<le> n \<and> n \<le> 122
      then (case c of Char b0 b1 b2 b3 b4 b5 b6 b7 \<Rightarrow> Char b0 b1 b2 b3 b4 False b6 b7)
      else c)"

definition digit_value :: "char \<Rightarrow> int option" where
  "digit_value c =
     (let n = (of_char c :: nat) in if 48 \<le> n \<and> n \<le> 57 then Some (int n - 48) else None)"

fun decimal_value :: "int \<Rightarrow> string \<Rightarrow> int option" where
  "decimal_value acc [] = Some acc"
| "decimal_value acc (c # cs) =
     (case digit_value c of None \<Rightarrow> None | Some d \<Rightarrow> decimal_value (10 * acc + d) cs)"

definition sample_value :: json where
  "sample_value = JDict [(''a'', JInt 1)]"

definition sample_text :: string where
  \<open>sample_text = ''{"a": 1}''\<close>

definition sample_lib :: pylib where
  "sample_lib =
     \<lparr> re_compile = (\<lambda>p. Some (sublist p)),
       str_upper = map ascii_upper,
       str_of = (\<lambda>v. []),
       int_of_str = (\<lambda>s. if s = [] then None else decimal_value 0 s),
       json_loads = (\<lambda>s. if s = sample_text then Some sample_value
                          else if s = ''{}'' then Some (JDict [])
                          else None),
       json_dumps = (\<lambda>v. if v = sample_value then sample_text
                          else if v = JDict [] then ''{}''
                          else []) \<rparr>"

definition rec_a :: json where
  "rec_a = JDict [(''request'', JDict [(''url'', JStr ''https://example.com/a''),
                                       (''method'', JStr ''GET'')]),
                  (''response'', JDict [(''status'', JInt 200)])]"

definition rec_b :: json where
  "rec_b = JDict [(''request'', JDict [(''url'', JStr ''https://example.com/b''),
                                       (''method'', JStr ''POST'')]),
                  (''response'', JDict [(''status'', JInt 500)])]"

definition rec_c :: json where
  "rec_c = JDict [(''url'', JStr ''https://example.com/c''), (''method'', JStr ''get''),
                  (''status'', JStr ''n/a'')]"

definition rec_d :: json where
  "rec_d = JDict [(''url'', JStr ''https://example.com/d''),
                  (''response'', JDict [(''status'', JInt 0)])]"

text \<open>
  A record whose status is the float infinity, as \<^verbatim>\<open>json.loads\<close> reads \<^verbatim>\<open>1e999\<close> or
  \<^verbatim>\<open>Infinity\<close>.
\<close>

definition rec_inf :: json where
  "rec_inf = JDict [(''url'', JStr ''https://example.com/e''),
                    (''response'', JDict [(''status'', JFloat (FloatInf False))])]"



definition sample_env :: os_env where
  "sample_env = \<lparr>env_home = Some ''/home/u'', pw_dir_uid = None, pw_dir_name = (\<lambda>u. None)\<rparr>"

definition sample_now :: datetime where
  "sample_now = \<lparr>dt_year = 2026, dt_month = 11, dt_day = 3,
                  dt_hour = 20, dt_minute = 27, dt_second = 5\<rparr>"

text \<open>
  A service whose first 1025 calls raise and whose next call returns, and an
  \<^verbatim>\<open>asyncio.sleep\<close> that always completes.
\<close>

definition failing_service :: "nat \<Rightarrow> (nat, string) outcome" where
  "failing_service n = (if n = 1025 then Returns ''ok'' else RaisesException n)"

definition sleep_completes :: "nat \<Rightarrow> pyfloat \<Rightarrow> nat option" where
  "sleep_completes a d = None"

section \<open>Properties of the record filter\<close>

lemma filter_loop_Inr:
  "filter_loop L p m lo hi acc xs = Inr ys \<longleftrightarrow>
     (\<forall>r\<in>set xs. \<exists>k. keep_record L p m lo hi r = Inr k) \<and>
     ys = acc @ filter (\<lambda>r. keep_record L p m lo hi r = Inr True) xs"
proof (induction xs arbitrary: acc)
  case Nil
  show ?case by auto
next
  case (Cons x xs)
  show ?case
  proof (cases "keep_record L p m lo hi x")
    case (Inl e)
    then show ?thesis by simp
  next
    case (Inr k)
    then show ?thesis using Cons.IH by (cases k) auto
  qed
qed

lemma resolve_field_total:
  assumes "sub_mapping_ok kvs outer"
  shows "\<exists>v. resolve_field (JDict kvs) outer field = Inr v"
  using assms
  by (auto simp: sub_mapping_ok_def is_mapping_def resolve_field_def nested_get_def py_get_def py_or_def
      split: option.splits json.splits)

lemma skip_if_True: "skip_if c rest = Inr True \<longleftrightarrow> c = Inr False \<and> rest = Inr True"
  by (auto simp: skip_if_def split: sum.splits bool.splits)

lemma skip_if_Inr:
  "skip_if c rest = Inr k \<longleftrightarrow> (c = Inr True \<and> \<not> k) \<or> (c = Inr False \<and> rest = Inr k)"
  by (auto simp: skip_if_def split: sum.splits bool.splits)

lemma keep_record_resolved:
  assumes "resolve_field r ''request'' ''url'' = Inr u"
    and "resolve_field r ''request'' ''method'' = Inr mv"
    and "resolve_field r ''response'' ''status'' = Inr sv"
  shows "keep_record L p m lo hi r =
          skip_if (url_mismatch p (py_or u (JStr '''')))
         (skip_if (Inr (method_mismatch L m mv))
         (skip_if (below_min L lo sv)
         (skip_if (above_max L hi sv) (Inr True))))"
  by (simp add: keep_record_def assms)

lemma keep_record_Inr_resolved:
  assumes "keep_record L p m lo hi r = Inr k"
  obtains u mv sv where "resolve_field r ''request'' ''url'' = Inr u"
    and "resolve_field r ''request'' ''method'' = Inr mv"
    and "resolve_field r ''response'' ''status'' = Inr sv"
  using assms by (auto simp: keep_record_def split: sum.splits)

lemma keep_record_no_filters:
  assumes "is_request_record r"
  shows "keep_record L None None None None r = Inr True"
proof -
  from assms obtain kvs where r: "r = JDict kvs"
    and rq: "sub_mapping_ok kvs ''request''" and rs: "sub_mapping_ok kvs ''response''"
    by (auto simp: is_request_record_def split: json.splits)
  obtain u where u: "resolve_field r ''request'' ''url'' = Inr u"
    using resolve_field_total [OF rq] r by blast
  obtain mv where mv: "resolve_field r ''request'' ''method'' = Inr mv"
    using resolve_field_total [OF rq] r by blast
  obtain sv where sv: "resolve_field r ''response'' ''status'' = Inr sv"
    using resolve_field_total [OF rs] r by blast
  show ?thesis
    by (simp add: keep_record_resolved [OF u mv sv] skip_if_True url_mismatch_def
        method_mismatch_def below_min_def above_max_def)
qed

lemma keep_record_no_filters_Inr:
  assumes "keep_record L None None None None r = Inr k"
  shows "k"
proof -
  from assms obtain u mv sv where u: "resolve_field r ''request'' ''url'' = Inr u"
    and mv: "resolve_field r ''request'' ''method'' = Inr mv"
    and sv: "resolve_field r ''response'' ''status'' = Inr sv"
    by (rule keep_record_Inr_resolved)
  show ?thesis using assms
    by (simp add: keep_record_resolved [OF u mv sv] skip_if_def url_mismatch_def
        method_mismatch_def below_min_def above_max_def)
qed

lemma below_min_numeric:
  "py_int L sv = Inr n \<Longrightarrow> below_min L (Some lo) sv = Inr (n < lo)"
  by (auto simp: below_min_def)

lemma above_max_numeric:
  "py_int L sv = Inr n \<Longrightarrow> above_max L (Some hi) sv = Inr (n > hi)"
  by (auto simp: above_max_def)

lemma below_min_non_numeric:
  "\<forall>n. py_int L sv \<noteq> Inr n \<Longrightarrow> below_min L lo sv = Inr k \<Longrightarrow> \<not> k"
  by (auto simp: below_min_def split: option.splits sum.splits if_splits)

lemma above_max_non_numeric:
  "\<forall>n. py_int L sv \<noteq> Inr n \<Longrightarrow> above_max L hi sv = Inr k \<Longrightarrow> \<not> k"
  by (auto simp: above_max_def split: option.splits sum.splits if_splits)

lemma keep_record_status_min:
  assumes "keep_record L p m (Some lo) hi r = Inr True"
    and sv: "resolve_field r ''response'' ''status'' = Inr sv"
    and n: "py_int L sv = Inr n"
  shows "lo \<le> n"
proof -
  from assms(1) obtain u mv sv' where u: "resolve_field r ''request'' ''url'' = Inr u"
    and mv: "resolve_field r ''request'' ''method'' = Inr mv"
    and "resolve_field r ''response'' ''status'' = Inr sv'"
    by (rule keep_record_Inr_resolved)
  from assms(1) have "below_min L (Some lo) sv = Inr False"
    by (simp add: keep_record_resolved [OF u mv sv] skip_if_True)
  then show ?thesis by (simp add: below_min_numeric [OF n])
qed

lemma keep_record_status_max:
  assumes "keep_record L p m lo (Some hi) r = Inr True"
    and sv: "resolve_field r ''response'' ''status'' = Inr sv"
    and n: "py_int L sv = Inr n"
  shows "n \<le> hi"
proof -
  from assms(1) obtain u mv sv' where u: "resolve_field r ''request'' ''url'' = Inr u"
    and mv: "resolve_field r ''request'' ''method'' = Inr mv"
    and "resolve_field r ''response'' ''status'' = Inr sv'"
    by (rule keep_record_Inr_resolved)
  from assms(1) have "above_max L (Some hi) sv = Inr False"
    by (simp add: keep_record_resolved [OF u mv sv] skip_if_True)
  then show ?thesis by (simp add: above_max_numeric [OF n])
qed

lemma status_checks_None: "below_min L None sv = Inr False" "above_max L None sv = Inr False"
  by (simp_all add: below_min_def above_max_def)

lemma keep_record_without_status:
  assumes "keep_record L p m lo hi r = Inr k"
  shows "\<exists>k0. keep_record L p m None None r = Inr k0 \<and> (k \<longrightarrow> k0)"
proof -
  from assms obtain u mv sv where u: "resolve_field r ''request'' ''url'' = Inr u"
    and mv: "resolve_field r ''request'' ''method'' = Inr mv"
    and sv: "resolve_field r ''response'' ''status'' = Inr sv"
    by (rule keep_record_Inr_resolved)
  show ?thesis using assms
    by (auto simp: keep_record_resolved [OF u mv sv] skip_if_Inr status_checks_None)
qed

lemma keep_record_non_numeric:
  assumes "keep_record L p m lo hi r = Inr k"
    and sv: "resolve_field r ''response'' ''status'' = Inr sv"
    and nn: "\<forall>n. py_int L sv \<noteq> Inr n"
  shows "keep_record L p m None None r = Inr k"
proof -
  from assms(1) obtain u mv sv' where u: "resolve_field r ''request'' ''url'' = Inr u"
    and mv: "resolve_field r ''request'' ''method'' = Inr mv"
    and "resolve_field r ''response'' ''status'' = Inr sv'"
    by (rule keep_record_Inr_resolved)
  show ?thesis using assms(1) below_min_non_numeric [OF nn, of lo] above_max_non_numeric [OF nn, of hi]
    by (auto simp: keep_record_resolved [OF u mv sv] skip_if_Inr status_checks_None)
qed

lemma filter_network_requests_Some:
  "filter_network_requests L (Some records) url_regex method_filter lo hi = Inr out \<longleftrightarrow>
     (\<exists>p. compile_url_pattern L url_regex = Inr p \<and>
          filter_loop L p (upper_method_filter L method_filter) lo hi [] records = Inr out)"
  by (auto simp: filter_network_requests_def split: sum.splits)

text \<open>
  The status bounds on a call that returns: a record whose resolved status \<^verbatim>\<open>int()\<close>
  turns into a number below \<^verbatim>\<open>status_min\<close> or above \<^verbatim>\<open>status_max\<close> is not in the
  output; a record whose resolved status is absent or not turned into a number is in the
  output exactly when it is in the output of the same call with the status filter switched
  off.
\<close>

theorem filter_status_range:
  assumes ret: "filter_network_requests L (Some records) url_regex method_filter
                  status_min status_max = Inr out"
    and r: "r \<in> set records"
    and sv: "resolve_field r ''response'' ''status'' = Inr sv"
  shows "(\<forall>n lo. py_int L sv = Inr n \<and> status_min = Some lo \<and> n < lo \<longrightarrow> r \<notin> set out)
       \<and> (\<forall>n hi. py_int L sv = Inr n \<and> status_max = Some hi \<and> hi < n \<longrightarrow> r \<notin> set out)
       \<and> ((\<forall>n. py_int L sv \<noteq> Inr n) \<longrightarrow>
            (\<exists>out0. filter_network_requests L (Some records) url_regex method_filter
                       None None = Inr out0
                   \<and> (r \<in> set out \<longleftrightarrow> r \<in> set out0)))"
proof -
  from ret obtain p where p: "compile_url_pattern L url_regex = Inr p"
    and loop: "filter_loop L p (upper_method_filter L method_filter) status_min status_max
                 [] records = Inr out"
    by (auto simp: filter_network_requests_Some)
  let ?m = "upper_method_filter L method_filter"
  from loop have all: "\<forall>x\<in>set records. \<exists>k. keep_record L p ?m status_min status_max x = Inr k"
    and out: "out = filter (\<lambda>x. keep_record L p ?m status_min status_max x = Inr True) records"
    by (simp_all add: filter_loop_Inr)
  have in_out: "r \<in> set out \<longleftrightarrow> keep_record L p ?m status_min status_max r = Inr True"
    using r by (simp add: out)
  have lo: "\<forall>n lo. py_int L sv = Inr n \<and> status_min = Some lo \<and> n < lo \<longrightarrow> r \<notin> set out"
    using keep_record_status_min [OF _ sv] in_out by fastforce
  have hi: "\<forall>n hi. py_int L sv = Inr n \<and> status_max = Some hi \<and> hi < n \<longrightarrow> r \<notin> set out"
    using keep_record_status_max [OF _ sv] in_out by fastforce
  have all0: "\<forall>x\<in>set records. \<exists>k. keep_record L p ?m None None x = Inr k"
    using all keep_record_without_status by blast
  define out0 where "out0 = filter (\<lambda>x. keep_record L p ?m None None x = Inr True) records"
  have ret0: "filter_network_requests L (Some records) url_regex method_filter None None = Inr out0"
    using p all0 by (simp add: filter_network_requests_Some filter_loop_Inr out0_def)
  have in_out0: "r \<in> set out0 \<longleftrightarrow> keep_record L p ?m None None r = Inr True"
    using r by (simp add: out0_def)
  have non: "(\<forall>n. py_int L sv \<noteq> Inr n) \<longrightarrow> (r \<in> set out \<longleftrightarrow> r \<in> set out0)"
  proof
    assume nn: "\<forall>n. py_int L sv \<noteq> Inr n"
    from all r obtain k where k: "keep_record L p ?m status_min status_max r = Inr k" by blast
    from keep_record_non_numeric [OF k sv nn] k
    show "r \<in> set out \<longleftrightarrow> r \<in> set out0" by (simp add: in_out in_out0)
  qed
  from lo hi non ret0 show ?thesis by blast
qed

text \<open>
  Claim C2. With no predicate supplied (\<^verbatim>\<open>url_regex\<close>, \<^verbatim>\<open>method_filter\<close>,
  \<^verbatim>\<open>status_min\<close> and \<^verbatim>\<open>status_max\<close> all \<^verbatim>\<open>None\<close>) the filter returns its input: any
  list it returns is the input list, same records in the same order, and on a list of
  request records it does return.
\<close>

theorem filter_no_predicates_identity:
  "(\<forall>out. filter_network_requests L (Some records) None None None None = Inr out
       \<longrightarrow> out = records)
   \<and> ((\<forall>r\<in>set records. is_request_record r)
       \<longrightarrow> filter_network_requests L (Some records) None None None None = Inr records)"
proof -
  have p: "compile_url_pattern L None = Inr None" "upper_method_filter L None = None"
    by (simp_all add: compile_url_pattern_def upper_method_filter_def)
  have a: "out = records"
    if "filter_network_requests L (Some records) None None None None = Inr out" for out
  proof -
    from that have all: "\<forall>x\<in>set records. \<exists>k. keep_record L None None None None x = Inr k"
      and out: "out = filter (\<lambda>x. keep_record L None None None None x = Inr True) records"
      by (simp_all add: filter_network_requests_Some p filter_loop_Inr)
    have "\<forall>x\<in>set records. keep_record L None None None None x = Inr True"
      using all keep_record_no_filters_Inr by fastforce
    then show ?thesis by (simp add: out)
  qed
  have b: "filter_network_requests L (Some records) None None None None = Inr records"
    if "\<forall>r\<in>set records. is_request_record r"
  proof -
    have "\<forall>x\<in>set records. keep_record L None None None None x = Inr True"
      using that keep_record_no_filters by blast
    then show ?thesis
      by (auto simp: filter_network_requests_Some p filter_loop_Inr)
  qed
  from a b show ?thesis by blast
qed

text \<open>
  Claim C3. For every combination of filter arguments, the list the filter returns is a
  subsequence of its input: every output record is an input record, and the records keep
  their relative order.
\<close>

theorem filter_output_subseq:
  assumes "filter_network_requests L (Some records) url_regex method_filter
             status_min status_max = Inr out"
  shows "subseq out records \<and> set out \<subseteq> set records"
proof -
  from assms obtain p where
    "filter_loop L p (upper_method_filter L method_filter) status_min status_max [] records = Inr out"
    by (auto simp: filter_network_requests_Some)
  then have "out = filter (\<lambda>x. keep_record L p (upper_method_filter L method_filter)
                                 status_min status_max x = Inr True) records"
    by (simp add: filter_loop_Inr)
  then show ?thesis by auto
qed

lemma resolve_field_nested:
  assumes "map_of kvs outer = Some (JDict c)" and "py_get (JDict c) field = Inr n"
  shows "resolve_field (JDict kvs) outer field =
           (if truthy n then Inr n else py_get (JDict kvs) field)"
  using assms
  by (auto simp: resolve_field_def nested_get_def py_get_def py_or_def split: option.splits)

lemma resolve_field_flat:
  assumes "map_of kvs outer = None \<or> (\<exists>c. map_of kvs outer = Some c \<and> \<not> truthy c)"
  shows "resolve_field (JDict kvs) outer field = py_get (JDict kvs) field"
  using assms
  by (auto simp: resolve_field_def nested_get_def py_get_def py_or_def split: option.splits)

text \<open>
  Claim C10. The nested value of a field is used only when it is truthy: a falsy nested
  value (or a falsy or missing nested mapping) gives the flat top-level field, which is
  \<^verbatim>\<open>None\<close> when missing. In particular a record whose only status is the integer 0 under
  \<^verbatim>\<open>response\<close> resolves to no status, and for any status range it is in the output exactly
  when it is in the output of the same call without a status range.
\<close>

theorem falsy_nested_value_falls_back:
  assumes resp: "map_of kvs ''response'' = Some (JDict resp)"
    and zero: "map_of resp ''status'' = Some (JInt 0)"
    and flat: "map_of kvs ''status'' = None"
    and r: "JDict kvs \<in> set records"
    and ret: "filter_network_requests L (Some records) url_regex method_filter
                status_min status_max = Inr out"
  shows "(\<forall>outer field c n. map_of kvs outer = Some (JDict c) \<and> py_get (JDict c) field = Inr n
            \<longrightarrow> resolve_field (JDict kvs) outer field =
                  (if truthy n then Inr n else py_get (JDict kvs) field))
       \<and> (\<forall>outer field.
             map_of kvs outer = None \<or> (\<exists>c. map_of kvs outer = Some c \<and> \<not> truthy c)
            \<longrightarrow> resolve_field (JDict kvs) outer field = py_get (JDict kvs) field)
       \<and> resolve_field (JDict kvs) ''response'' ''status'' = Inr JNull
       \<and> (\<exists>out0. filter_network_requests L (Some records) url_regex method_filter
                     None None = Inr out0
                 \<and> (JDict kvs \<in> set out \<longleftrightarrow> JDict kvs \<in> set out0))"
proof -
  have a: "\<forall>outer field c n. map_of kvs outer = Some (JDict c) \<and> py_get (JDict c) field = Inr n
            \<longrightarrow> resolve_field (JDict kvs) outer field =
                  (if truthy n then Inr n else py_get (JDict kvs) field)"
    using resolve_field_nested by blast
  have b: "\<forall>outer field.
             map_of kvs outer = None \<or> (\<exists>c. map_of kvs outer = Some c \<and> \<not> truthy c)
            \<longrightarrow> resolve_field (JDict kvs) outer field = py_get (JDict kvs) field"
    using resolve_field_flat by blast
  have sv: "resolve_field (JDict kvs) ''response'' ''status'' = Inr JNull"
    using resolve_field_nested [OF resp, of "''status''" "JInt 0"] zero flat
    by (simp add: py_get_def)
  from ret obtain p where p: "compile_url_pattern L url_regex = Inr p"
    and loop: "filter_loop L p (upper_method_filter L method_filter) status_min status_max
                 [] records = Inr out"
    by (auto simp: filter_network_requests_Some)
  let ?m = "upper_method_filter L method_filter"
  from loop have all: "\<forall>x\<in>set records. \<exists>k. keep_record L p ?m status_min status_max x = Inr k"
    and out: "out = filter (\<lambda>x. keep_record L p ?m status_min status_max x = Inr True) records"
    by (simp_all add: filter_loop_Inr)
  have all0: "\<forall>x\<in>set records. \<exists>k. keep_record L p ?m None None x = Inr k"
    using all keep_record_without_status by blast
  define out0 where "out0 = filter (\<lambda>x. keep_record L p ?m None None x = Inr True) records"
  have ret0: "filter_network_requests L (Some records) url_regex method_filter None None = Inr out0"
    using p all0 by (simp add: filter_network_requests_Some filter_loop_Inr out0_def)
  from all r obtain k where k: "keep_record L p ?m status_min status_max (JDict kvs) = Inr k"
    by blast
  have "keep_record L p ?m None None (JDict kvs) = Inr k"
    by (rule keep_record_non_numeric [OF k sv]) simp
  with k r have "JDict kvs \<in> set out \<longleftrightarrow> JDict kvs \<in> set out0"
    by (simp add: out out0_def)
  with a b sv ret0 show ?thesis by blast
qed

section \<open>Properties of the result normalizer\<close>

lemma extract_loop_skip:
  "\<forall>x\<in>set pre. \<not> known_tag x \<Longrightarrow> extract_loop L (pre @ rest) = extract_loop L rest"
  by (induction pre)
     (auto simp: known_tag_def entry_field_def content_type_of_def Let_def
           split: content_entry.splits option.splits)

lemma extract_loop_unknown:
  "\<forall>x\<in>set es. \<not> known_tag x \<Longrightarrow> extract_loop L es = JNull"
  using extract_loop_skip [of es L "[]"] by simp

lemma content_type_of_field:
  "entry_field e ''type'' = Some v \<Longrightarrow> content_type_of e = v"
  by (auto simp: entry_field_def content_type_of_def split: content_entry.splits)

lemma json_branch_field:
  "json_branch e = (case entry_field e ''json'' of None \<Rightarrow> JNull | Some v \<Rightarrow> v)"
  by (auto simp: entry_field_def json_branch_def split: content_entry.splits option.splits)

lemma text_payload_of_field:
  "text_payload_of e =
     (case entry_field e ''text'' of None \<Rightarrow> JStr [] | Some v \<Rightarrow> if truthy v then v else JStr [])"
  by (auto simp: entry_field_def text_payload_of_def py_or_def
      split: content_entry.splits option.splits)

text \<open>
  Claim C4. \<^verbatim>\<open>extract_tool_result_json\<close> scans the content entries in order and the first
  entry tagged \<^verbatim>\<open>"json"\<close> or \<^verbatim>\<open>"text"\<close> decides the result: a \<^verbatim>\<open>"json"\<close> entry gives its
  embedded value; a \<^verbatim>\<open>"text"\<close> entry gives its text parsed as JSON, or the one-field mapping
  holding the raw text when parsing fails (a missing or falsy text counts as the empty
  string). Without a result, without content, or without an entry carrying one of the two
  tags, the result is null.
\<close>

theorem extract_first_usable_value:
  "extract_tool_result_json L None = JNull
   \<and> extract_tool_result_json L (Some \<lparr>content = None\<rparr>) = JNull
   \<and> ((\<forall>x\<in>set entries. \<not> known_tag x)
        \<longrightarrow> extract_tool_result_json L (Some \<lparr>content = Some entries\<rparr>) = JNull)
   \<and> ((\<forall>x\<in>set pre. \<not> known_tag x) \<and> entry_field e ''type'' = Some (JStr ''json'')
        \<longrightarrow> extract_tool_result_json L (Some \<lparr>content = Some (pre @ e # post)\<rparr>)
              = (case entry_field e ''json'' of None \<Rightarrow> JNull | Some v \<Rightarrow> v))
   \<and> ((\<forall>x\<in>set pre. \<not> known_tag x) \<and> entry_field e ''type'' = Some (JStr ''text'')
        \<and> entry_field e ''text'' = Some (JStr s)
        \<longrightarrow> extract_tool_result_json L (Some \<lparr>content = Some (pre @ e # post)\<rparr>)
              = (case json_loads L s of Some v \<Rightarrow> v | None \<Rightarrow> JDict [(''text'', JStr s)]))
   \<and> ((\<forall>x\<in>set pre. \<not> known_tag x) \<and> entry_field e ''type'' = Some (JStr ''text'')
        \<and> (entry_field e ''text'' = None \<or> (\<exists>v. entry_field e ''text'' = Some v \<and> \<not> truthy v))
        \<longrightarrow> extract_tool_result_json L (Some \<lparr>content = Some (pre @ e # post)\<rparr>)
              = (case json_loads L [] of Some v \<Rightarrow> v | None \<Rightarrow> JDict [(''text'', JStr [])]))"
proof -
  have c: "extract_tool_result_json L (Some \<lparr>content = Some es\<rparr>) = extract_loop L es" for es
    by (simp add: extract_tool_result_json_def)
  have j: "extract_loop L (pre @ e # post)
             = (case entry_field e ''json'' of None \<Rightarrow> JNull | Some v \<Rightarrow> v)"
    if "\<forall>x\<in>set pre. \<not> known_tag x" "entry_field e ''type'' = Some (JStr ''json'')"
    using that by (simp add: extract_loop_skip content_type_of_field json_branch_field)
  have t: "extract_loop L (pre @ e # post)
             = (case json_loads L s of Some v \<Rightarrow> v | None \<Rightarrow> JDict [(''text'', JStr s)])"
    if "\<forall>x\<in>set pre. \<not> known_tag x" "entry_field e ''type'' = Some (JStr ''text'')"
      "entry_field e ''text'' = Some (JStr s)"
  proof -
    have "text_payload_of e = JStr s"
      using that(3) by (cases "s = []") (simp_all add: text_payload_of_field)
    then show ?thesis
      using that(1,2) by (simp add: extract_loop_skip content_type_of_field text_branch_def)
  qed
  have t0: "extract_loop L (pre @ e # post)
             = (case json_loads L [] of Some v \<Rightarrow> v | None \<Rightarrow> JDict [(''text'', JStr [])])"
    if "\<forall>x\<in>set pre. \<not> known_tag x" "entry_field e ''type'' = Some (JStr ''text'')"
      "entry_field e ''text'' = None \<or> (\<exists>v. entry_field e ''text'' = Some v \<and> \<not> truthy v)"
  proof -
    have "text_payload_of e = JStr []"
      using that(3) by (auto simp: text_payload_of_field)
    then show ?thesis
      using that(1,2) by (simp add: extract_loop_skip content_type_of_field text_branch_def)
  qed
  show ?thesis
    using j t t0 extract_loop_unknown [of entries L]
    by (simp add: c) (simp add: extract_tool_result_json_def)
qed

text \<open>
  Claim C5. The list coercion after normalization: null gives the empty list; a list is
  returned as it is; a mapping with a list under \<^verbatim>\<open>requests\<close> gives that inner list; any
  other mapping gives the one-element list holding it; any other value gives the
  one-element list holding the mapping from \<^verbatim>\<open>value\<close> to it.
\<close>

theorem normalize_to_list_cases:
  "normalize_to_list JNull = []
   \<and> normalize_to_list (JList items) = items
   \<and> (map_of kvs ''requests'' = Some (JList items) \<longrightarrow> normalize_to_list (JDict kvs) = items)
   \<and> ((\<forall>xs. map_of kvs ''requests'' \<noteq> Some (JList xs))
        \<longrightarrow> normalize_to_list (JDict kvs) = [JDict kvs])
   \<and> (p \<noteq> JNull \<and> (\<forall>xs. p \<noteq> JList xs) \<and> (\<forall>d. p \<noteq> JDict d)
        \<longrightarrow> normalize_to_list p = [JDict [(''value'', p)]])"
  by (auto simp: normalize_to_list_def split: json.splits option.splits)

section \<open>Properties of the serialization\<close>

lemma split_lines_from_line:
  "newline \<notin> set l \<Longrightarrow>
     split_lines_from cur (l @ newline # rest) = (cur @ l) # split_lines_from [] rest"
  by (induction l arbitrary: cur) auto

lemma split_lines_concat:
  "\<forall>l\<in>set ls. newline \<notin> set l \<Longrightarrow>
     split_lines_from [] (concat (map (\<lambda>l. l @ [newline]) ls)) = ls"
  by (induction ls) (auto simp: split_lines_from_line)

text \<open>
  Claim C7. For a list of records that \<^verbatim>\<open>json.dumps\<close> writes without a raw newline and
  \<^verbatim>\<open>json.loads\<close> reads back (the JSON-representable ones), splitting the output of
  \<^verbatim>\<open>serialize_to_jsonl\<close> into lines and parsing each line gives back the records in order;
  the lines are the records' JSON texts, there is one newline per record, and the output
  is empty or ends with a newline.
\<close>

theorem serialize_to_jsonl_round_trip:
  assumes "\<forall>x\<in>set items. newline \<notin> set (json_dumps L x) \<and> json_loads L (json_dumps L x) = Some x"
  shows "map (json_loads L) (split_lines (serialize_to_jsonl L (JList items))) = map Some items
       \<and> split_lines (serialize_to_jsonl L (JList items)) = map (json_dumps L) items
       \<and> length (filter (\<lambda>c. c = newline) (serialize_to_jsonl L (JList items))) = length items
       \<and> (serialize_to_jsonl L (JList items) = [] \<or> last (serialize_to_jsonl L (JList items)) = newline)"
proof -
  let ?out = "serialize_to_jsonl L (JList items)"
  have out: "?out = concat (map (\<lambda>l. l @ [newline]) (map (json_dumps L) items))"
    by (simp add: serialize_to_jsonl_def comp_def)
  have clean: "\<forall>l\<in>set (map (json_dumps L) items). newline \<notin> set l"
    using assms by simp
  have lines: "split_lines ?out = map (json_dumps L) items"
    unfolding split_lines_def out by (rule split_lines_concat [OF clean])
  have parsed: "map (json_loads L) (split_lines ?out) = map Some items"
    using assms by (simp add: lines)
  have count: "length (filter (\<lambda>c. c = newline) ?out) = length items"
    using assms unfolding out by (induction items) (auto simp: filter_empty_conv)
  have fin: "?out = [] \<or> last ?out = newline"
    unfolding out by (induction items rule: rev_induct) auto
  from parsed lines count fin show ?thesis by blast
qed

section \<open>Properties of the retry wrapper\<close>

declare call_tool_loop.simps [simp del]

lemma call_tool_loop_calls:
  "calls (snd (call_tool_loop call_tool slp retries b a le st))
     \<le> calls st + nat (retries + 1 - int a)
   \<and> calls st \<le> calls (snd (call_tool_loop call_tool slp retries b a le st))"
proof (induction call_tool slp retries b a le st rule: call_tool_loop.induct)
  case (1 call_tool slp retries b a le st)
  note unf = call_tool_loop.simps [of call_tool slp retries b a le st]
  show ?case
  proof (cases "int a \<le> retries")
    case False
    then show ?thesis by (simp add: unf)
  next
    case True
    show ?thesis
    proof (cases "call_tool (calls st)")
      case (Returns r)
      with True show ?thesis by (simp add: unf)
    next
      case (RaisesBase e)
      with True show ?thesis by (simp add: unf)
    next
      case (RaisesException exc)
      show ?thesis
      proof (cases "int (a + 1) > retries \<or> 1024 \<le> a + 1 - 1
                    \<or> slp (a + 1) (float_times_pow2 b (a + 1 - 1)) \<noteq> None")
        case True
        with \<open>int a \<le> retries\<close> RaisesException show ?thesis
          by (auto simp: unf)
      next
        case False
        let ?st = "st\<lparr>calls := calls st + 1,
                      sleeps := sleeps st @ [(a + 1, float_times_pow2 b (a + 1 - 1))]\<rparr>"
        have eq: "call_tool_loop call_tool slp retries b a le st =
                call_tool_loop call_tool slp retries b (a + 1) (Some exc) ?st"
          using False \<open>int a \<le> retries\<close> RaisesException by (subst unf) auto
        have ih: "calls (snd (call_tool_loop call_tool slp retries b (a + 1) (Some exc) ?st))
               \<le> (calls st + 1) + nat (retries + 1 - int (a + 1))
             \<and> calls st + 1 \<le> calls (snd (call_tool_loop call_tool slp retries b (a + 1) (Some exc) ?st))"
          using "1.IH" [OF \<open>int a \<le> retries\<close> RaisesException] False by simp
        have ar: "(calls st + 1) + nat (retries + 1 - int (a + 1))
                    = calls st + nat (retries + 1 - int a)"
          using \<open>int a \<le> retries\<close> by linarith
        show ?thesis unfolding eq using ih ar by linarith
      qed
    qed
  qed
qed

lemma backoff_schedule_Suc:
  "backoff_schedule b (Suc k) = backoff_schedule b k @ [(Suc k, float_times_pow2 b k)]"
  by (simp add: backoff_schedule_def)

lemma call_tool_loop_at:
  assumes "int k \<le> retries"
  shows "call_tool_loop call_tool slp retries b k le \<lparr>calls = k, sleeps = backoff_schedule b k\<rparr> =
     (case call_tool k of
        Returns r \<Rightarrow> (Inr r, \<lparr>calls = Suc k, sleeps = backoff_schedule b k\<rparr>)
      | RaisesBase e \<Rightarrow> (Inl (Propagated e), \<lparr>calls = Suc k, sleeps = backoff_schedule b k\<rparr>)
      | RaisesException exc \<Rightarrow>
          (if int (Suc k) > retries
           then (Inl (RuntimeError (Some exc)), \<lparr>calls = Suc k, sleeps = backoff_schedule b k\<rparr>)
           else if 1024 \<le> k
           then (Inl (Builtin OverflowError), \<lparr>calls = Suc k, sleeps = backoff_schedule b k\<rparr>)
           else (case slp (Suc k) (float_times_pow2 b k) of
                   Some e \<Rightarrow> (Inl (Propagated e),
                              \<lparr>calls = Suc k, sleeps = backoff_schedule b (Suc k)\<rparr>)
                 | None \<Rightarrow> call_tool_loop call_tool slp retries b (Suc k) (Some exc)
                             \<lparr>calls = Suc k, sleeps = backoff_schedule b (Suc k)\<rparr>)))"
  using assms
  by (subst call_tool_loop.simps)
     (simp add: backoff_schedule_Suc split: outcome.splits option.splits)

lemma call_tool_loop_failures:
  assumes "\<forall>j<k. \<exists>e. call_tool j = RaisesException e" and "int k \<le> retries" and "k \<le> 1024"
    and "\<forall>a d. slp a d = None"
  shows "\<exists>le. call_tool_loop call_tool slp retries b 0 None
                 \<lparr>calls = 0, sleeps = backoff_schedule b 0\<rparr>
       = call_tool_loop call_tool slp retries b k le \<lparr>calls = k, sleeps = backoff_schedule b k\<rparr>"
  using assms(1-3)
proof (induction k)
  case 0
  show ?case by auto
next
  case (Suc k)
  then obtain le where le: "call_tool_loop call_tool slp retries b 0 None
            \<lparr>calls = 0, sleeps = backoff_schedule b 0\<rparr>
       = call_tool_loop call_tool slp retries b k le \<lparr>calls = k, sleeps = backoff_schedule b k\<rparr>"
    by force
  from Suc.prems obtain e where e: "call_tool k = RaisesException e" by blast
  have k: "int k \<le> retries" "\<not> int (Suc k) > retries" "\<not> 1024 \<le> k"
    using Suc.prems by auto
  have "call_tool_loop call_tool slp retries b k le \<lparr>calls = k, sleeps = backoff_schedule b k\<rparr>
        = call_tool_loop call_tool slp retries b (Suc k) (Some e)
            \<lparr>calls = Suc k, sleeps = backoff_schedule b (Suc k)\<rparr>"
    using e k(2,3) assms(4) by (simp add: call_tool_loop_at [OF k(1)])
  with le show ?case by auto
qed


text \<open>
  The wrapper within the float range: for a retry count from 0 to 1024 and sleeps that
  complete, it makes at most \<open>retries + 1\<close> calls. If the first \<open>k \<le> retries\<close> calls raise
  and the next one returns, that result is returned after \<open>k + 1\<close> calls, and before
  attempt \<open>a + 1\<close> it has slept \<^verbatim>\<open>backoff_seconds * 2 ** (a - 1)\<close> seconds, for
  \<open>a = 1, ..., k\<close>. If all \<open>retries + 1\<close> calls raise, it raises the final
  \<^verbatim>\<open>RuntimeError\<close> whose cause is the exception of the last call. Raising means an
  exception that \<^verbatim>\<open>except Exception\<close> catches.
\<close>

theorem call_tool_with_retry_attempts:
  assumes "0 \<le> retries" and "retries \<le> 1024" and "\<forall>a d. asyncio_sleep a d = None"
  shows "int (calls (snd (call_tool_with_retry call_tool asyncio_sleep retries base_delay)))
           \<le> retries + 1
     \<and> (\<forall>k r. int k \<le> retries \<and> (\<forall>j<k. \<exists>e. call_tool j = RaisesException e)
              \<and> call_tool k = Returns r
          \<longrightarrow> call_tool_with_retry call_tool asyncio_sleep retries base_delay
                = (Inr r, \<lparr>calls = Suc k, sleeps = backoff_schedule base_delay k\<rparr>))
     \<and> (\<forall>last. (\<forall>j<nat retries. \<exists>e. call_tool j = RaisesException e)
              \<and> call_tool (nat retries) = RaisesException last
          \<longrightarrow> call_tool_with_retry call_tool asyncio_sleep retries base_delay
                = (Inl (RuntimeError (Some last)),
                   \<lparr>calls = Suc (nat retries), sleeps = backoff_schedule base_delay (nat retries)\<rparr>))"
proof -
  have s0: "backoff_schedule base_delay 0 = []" by (simp add: backoff_schedule_def)
  have run: "\<exists>le. call_tool_with_retry call_tool asyncio_sleep retries base_delay
          = call_tool_loop call_tool asyncio_sleep retries base_delay k le
              \<lparr>calls = k, sleeps = backoff_schedule base_delay k\<rparr>"
    if "\<forall>j<k. \<exists>e. call_tool j = RaisesException e" "int k \<le> retries" for k
  proof -
    from that(2) assms(2) have "k \<le> 1024" by linarith
    from call_tool_loop_failures [OF that this assms(3), of base_delay]
    show ?thesis by (auto simp: call_tool_with_retry_def s0)
  qed
  have a: "int (calls (snd (call_tool_with_retry call_tool asyncio_sleep retries base_delay)))
             \<le> retries + 1"
    using call_tool_loop_calls
      [of call_tool asyncio_sleep retries base_delay 0 None "\<lparr>calls = 0, sleeps = []\<rparr>"] assms(1)
    by (simp add: call_tool_with_retry_def)
  have b: "call_tool_with_retry call_tool asyncio_sleep retries base_delay
                = (Inr r, \<lparr>calls = Suc k, sleeps = backoff_schedule base_delay k\<rparr>)"
    if "int k \<le> retries" "\<forall>j<k. \<exists>e. call_tool j = RaisesException e" "call_tool k = Returns r"
    for k r
    using run [OF that(2,1)] that by (auto simp: call_tool_loop_at)
  have c: "call_tool_with_retry call_tool asyncio_sleep retries base_delay
                = (Inl (RuntimeError (Some last)),
                   \<lparr>calls = Suc (nat retries), sleeps = backoff_schedule base_delay (nat retries)\<rparr>)"
    if "\<forall>j<nat retries. \<exists>e. call_tool j = RaisesException e"
      "call_tool (nat retries) = RaisesException last" for last
  proof -
    have le: "int (nat retries) \<le> retries" using assms(1) by simp
    from run [OF that(1) le] that(2) assms(1) show ?thesis
      by (auto simp: call_tool_loop_at [OF le])
  qed
  from a b c show ?thesis by blast
qed

text \<open>
  With a negative retry count the loop body never runs: no call is made and the final
  error has no cause.
\<close>

lemma call_tool_with_retry_negative:
  "retries < 0 \<Longrightarrow>
     call_tool_with_retry call_tool asyncio_sleep retries base_delay
       = (Inl (RuntimeError None), \<lparr>calls = 0, sleeps = []\<rparr>)"
  unfolding call_tool_with_retry_def by (subst call_tool_loop.simps) simp

text \<open>
  Claim C6. The wrapper is to make up to \<open>retries + 1\<close> attempts and return the first
  successful result. With \<open>retries = 1025\<close> and a delay of zero, on a service whose first
  1025 calls raise and whose next call would return, it does not: after the 1025th failure
  the backoff needs \<^verbatim>\<open>2 ** 1024\<close> as a float, OverflowError leaves the function, and the
  call that would return is never made.
\<close>

theorem call_tool_with_retry_overflow:
  "fst (call_tool_with_retry failing_service sleep_completes 1025 (FloatFin 0))
     = Inl (Builtin OverflowError)
   \<and> calls (snd (call_tool_with_retry failing_service sleep_completes 1025 (FloatFin 0))) = 1025
   \<and> failing_service 1025 = Returns ''ok''"
proof -
  have f: "\<forall>j<1024. \<exists>e. failing_service j = RaisesException e"
    by (simp add: failing_service_def)
  have s: "\<forall>a d. sleep_completes a d = None" by (simp add: sleep_completes_def)
  have s0: "backoff_schedule (FloatFin 0) 0 = []" by (simp add: backoff_schedule_def)
  have k: "int 1024 \<le> 1025" "(1024::nat) \<le> 1024" by simp_all
  from call_tool_loop_failures [OF f k s, of "FloatFin 0"]
  obtain le where "call_tool_with_retry failing_service sleep_completes 1025 (FloatFin 0)
       = call_tool_loop failing_service sleep_completes 1025 (FloatFin 0) 1024 le
           \<lparr>calls = 1024, sleeps = backoff_schedule (FloatFin 0) 1024\<rparr>"
    by (auto simp: call_tool_with_retry_def s0)
  also have "\<dots> = (Inl (Builtin OverflowError),
                    \<lparr>calls = Suc 1024, sleeps = backoff_schedule (FloatFin 0) 1024\<rparr>)"
    by (subst call_tool_loop_at) (simp_all add: failing_service_def)
  finally show ?thesis by (simp add: failing_service_def)
qed

section \<open>Properties of the path expansion\<close>

declare str_replace.simps [simp del]

lemma str_replace_Nil: "old \<noteq> [] \<Longrightarrow> str_replace old new [] = []"
  by (subst str_replace.simps) simp

lemma str_replace_match:
  "old \<noteq> [] \<Longrightarrow> s \<noteq> [] \<Longrightarrow> prefix old s \<Longrightarrow>
     str_replace old new s = new @ str_replace old new (drop (length old) s)"
  by (subst str_replace.simps) simp

lemma str_replace_skip:
  "old \<noteq> [] \<Longrightarrow> \<not> prefix old (c # cs) \<Longrightarrow>
     str_replace old new (c # cs) = c # str_replace old new cs"
  by (subst str_replace.simps) simp












































section \<open>Sample runs\<close>

subsection \<open>The filter on sample records\<close>

lemmas filter_eval =
  filter_network_requests_def compile_url_pattern_def upper_method_filter_def
  keep_record_def resolve_field_def nested_get_def py_get_def py_or_def skip_if_def
  url_mismatch_def method_mismatch_def below_min_def above_max_def py_str_def
  sample_lib_def rec_a_def rec_b_def rec_c_def rec_d_def rec_inf_def ascii_upper_def
  digit_value_def
  sublist_code(3)

lemma sample_status_range:
  "filter_network_requests sample_lib (Some [rec_a, rec_b, rec_c, rec_d])
     None None (Some 200) (Some 399) = Inr [rec_a, rec_c, rec_d]"
  by (simp add: filter_eval)

lemma sample_all_filters:
  "filter_network_requests sample_lib (Some [rec_a, rec_b, rec_c, rec_d])
     (Some ''example'') (Some ''get'') (Some 200) (Some 399) = Inr [rec_a, rec_c]"
  by (simp add: filter_eval)

lemma sample_records_distinct: "rec_b \<noteq> rec_a" "rec_b \<noteq> rec_c" "rec_b \<noteq> rec_d"
  by (simp_all add: rec_a_def rec_b_def rec_c_def rec_d_def)

theorem filter_status_range_witness:
  "filter_network_requests sample_lib (Some [rec_a, rec_b, rec_c, rec_d])
     None None (Some 200) (Some 399) = Inr [rec_a, rec_c, rec_d]
   \<and> resolve_field rec_b ''response'' ''status'' = Inr (JInt 500)
   \<and> rec_b \<notin> set [rec_a, rec_c, rec_d]"
proof -
  have sv: "resolve_field rec_b ''response'' ''status'' = Inr (JInt 500)"
    by (simp add: filter_eval)
  have r: "rec_b \<in> set [rec_a, rec_b, rec_c, rec_d]" by simp
  from filter_status_range [OF sample_status_range r sv]
  have "\<forall>n hi. py_int sample_lib (JInt 500) = Inr n \<and> Some (399::int) = Some hi \<and> hi < n
          \<longrightarrow> rec_b \<notin> set [rec_a, rec_c, rec_d]"
    by blast
  then have "rec_b \<notin> set [rec_a, rec_c, rec_d]" by simp
  with sample_status_range sv show ?thesis by blast
qed

text \<open>
  Claim C1. A record whose status is present but not coercible to an integer is to pass
  the status filter. For the float infinity it does not: \<^verbatim>\<open>int()\<close> raises OverflowError,
  which the \<^verbatim>\<open>except (TypeError, ValueError)\<close> clauses do not catch, so with status bounds
  (here 0 and 999, the defaults of the command line, which always passes bounds) the
  filter raises instead of returning the record, while without bounds it returns it.
\<close>

theorem filter_infinite_status_raises:
  "resolve_field rec_inf ''response'' ''status'' = Inr (JFloat (FloatInf False))
   \<and> py_int sample_lib (JFloat (FloatInf False)) = Inl OverflowError
   \<and> filter_network_requests sample_lib (Some [rec_a, rec_inf]) None None None None
       = Inr [rec_a, rec_inf]
   \<and> filter_network_requests sample_lib (Some [rec_a, rec_inf]) None None (Some 0) (Some 999)
       = Inl OverflowError"
  by (simp add: filter_eval)

theorem filter_no_predicates_identity_witness:
  "is_request_record rec_a \<and> is_request_record rec_b \<and> is_request_record rec_c
   \<and> is_request_record rec_d
   \<and> filter_network_requests sample_lib (Some [rec_a, rec_b, rec_c, rec_d])
       None None None None = Inr [rec_a, rec_b, rec_c, rec_d]"
proof -
  have wf: "is_request_record rec_a" "is_request_record rec_b" "is_request_record rec_c"
    "is_request_record rec_d"
    by (simp_all add: is_request_record_def sub_mapping_ok_def is_mapping_def
        rec_a_def rec_b_def rec_c_def rec_d_def)
  then have "\<forall>r\<in>set [rec_a, rec_b, rec_c, rec_d]. is_request_record r" by simp
  with filter_no_predicates_identity [of sample_lib "[rec_a, rec_b, rec_c, rec_d]"]
  have "filter_network_requests sample_lib (Some [rec_a, rec_b, rec_c, rec_d])
          None None None None = Inr [rec_a, rec_b, rec_c, rec_d]"
    by blast
  with wf show ?thesis by blast
qed

theorem filter_output_subseq_witness:
  "filter_network_requests sample_lib (Some [rec_a, rec_b, rec_c, rec_d])
     (Some ''example'') (Some ''get'') (Some 200) (Some 399) = Inr [rec_a, rec_c]
   \<and> subseq [rec_a, rec_c] [rec_a, rec_b, rec_c, rec_d]
   \<and> set [rec_a, rec_c] \<subseteq> set [rec_a, rec_b, rec_c, rec_d]"
  using filter_output_subseq [OF sample_all_filters] sample_all_filters by blast

theorem falsy_nested_value_falls_back_witness:
  "filter_network_requests sample_lib (Some [rec_a, rec_b, rec_c, rec_d])
     None None (Some 200) (Some 399) = Inr [rec_a, rec_c, rec_d]
   \<and> resolve_field rec_d ''response'' ''status'' = Inr JNull
   \<and> rec_d \<in> set [rec_a, rec_c, rec_d]"
proof -
  have r: "JDict [(''url'', JStr ''https://example.com/d''),
                  (''response'', JDict [(''status'', JInt 0)])]
             \<in> set [rec_a, rec_b, rec_c, rec_d]"
    by (simp add: rec_d_def)
  have "resolve_field rec_d ''response'' ''status'' = Inr JNull"
    using falsy_nested_value_falls_back [OF _ _ _ r sample_status_range,
        of "[(''status'', JInt 0)]"]
    by (simp add: rec_d_def)
  with sample_status_range show ?thesis by simp
qed

text \<open>
  A status of 0 given as the flat top-level field is not lost: the fallback returns it, and
  a lower bound above 0 drops the record.
\<close>

lemma flat_status_zero_is_checked:
  "resolve_field (JDict [(''status'', JInt 0)]) ''response'' ''status'' = Inr (JInt 0)"
  "filter_network_requests sample_lib (Some [JDict [(''status'', JInt 0)]])
     None None (Some 200) (Some 399) = Inr []"
  by (simp_all add: filter_eval)

text \<open>
  The status bounds are compared with \<^verbatim>\<open>int(status_value)\<close>, which truncates a float
  toward zero: a status of 399.5 passes an upper bound of 399.
\<close>

lemma fractional_status_is_truncated:
  "filter_network_requests sample_lib (Some [JDict [(''status'', JFloat (FloatFin (799 / 2)))]])
     None None (Some 200) (Some 399) = Inr [JDict [(''status'', JFloat (FloatFin (799 / 2)))]]"
  by (simp add: filter_eval trunc_rat_def)

subsection \<open>The normalizer and the serialization on sample values\<close>

theorem extract_first_usable_value_witness:
  "extract_tool_result_json sample_lib
     (Some \<lparr>content = Some [Object [(''type'', JStr ''image'')],
                             Mapping [(''type'', JStr ''text''), (''text'', JStr sample_text)],
                             Object [(''type'', JStr ''json''), (''json'', JInt 5)]]\<rparr>)
     = sample_value
   \<and> extract_tool_result_json sample_lib
       (Some \<lparr>content = Some [Object [(''type'', JStr ''text''), (''text'', JStr ''not json'')]]\<rparr>)
     = JDict [(''text'', JStr ''not json'')]
   \<and> extract_tool_result_json sample_lib
       (Some \<lparr>content = Some [Object [(''type'', JStr ''json''), (''json'', JInt 5)]]\<rparr>)
     = JInt 5"
proof -
  have a: "extract_tool_result_json sample_lib
     (Some \<lparr>content = Some ([Object [(''type'', JStr ''image'')]] @
                             Mapping [(''type'', JStr ''text''), (''text'', JStr sample_text)] #
                             [Object [(''type'', JStr ''json''), (''json'', JInt 5)]])\<rparr>)
     = sample_value"
    using extract_first_usable_value [where L = sample_lib
        and pre = "[Object [(''type'', JStr ''image'')]]"
        and e = "Mapping [(''type'', JStr ''text''), (''text'', JStr sample_text)]"
        and post = "[Object [(''type'', JStr ''json''), (''json'', JInt 5)]]"
        and s = sample_text]
    by (simp add: known_tag_def entry_field_def sample_lib_def)
  have b: "extract_tool_result_json sample_lib
       (Some \<lparr>content = Some ([] @ Object [(''type'', JStr ''text''), (''text'', JStr ''not json'')]
                                # [])\<rparr>)
     = JDict [(''text'', JStr ''not json'')]"
    using extract_first_usable_value [where L = sample_lib and pre = "[]"
        and e = "Object [(''type'', JStr ''text''), (''text'', JStr ''not json'')]"
        and post = "[]" and s = "''not json''"]
    by (simp add: known_tag_def entry_field_def sample_lib_def sample_text_def)
  have c: "extract_tool_result_json sample_lib
       (Some \<lparr>content = Some ([] @ Object [(''type'', JStr ''json''), (''json'', JInt 5)] # [])\<rparr>)
     = JInt 5"
    using extract_first_usable_value [where L = sample_lib and pre = "[]"
        and e = "Object [(''type'', JStr ''json''), (''json'', JInt 5)]" and post = "[]"]
    by (simp add: known_tag_def entry_field_def)
  from a b c show ?thesis by simp
qed

theorem normalize_to_list_cases_witness:
  "normalize_to_list (JDict [(''requests'', JList [rec_a, rec_b])]) = [rec_a, rec_b]
   \<and> normalize_to_list (JDict [(''requests'', JStr ''none'')])
       = [JDict [(''requests'', JStr ''none'')]]
   \<and> normalize_to_list (JInt 7) = [JDict [(''value'', JInt 7)]]"
  using normalize_to_list_cases [where kvs = "[(''requests'', JList [rec_a, rec_b])]"
      and items = "[rec_a, rec_b]"]
    normalize_to_list_cases [where kvs = "[(''requests'', JStr ''none'')]" and p = "JInt 7"]
  by simp

theorem serialize_to_jsonl_round_trip_witness:
  "serialize_to_jsonl sample_lib (JList [sample_value, JDict []])
     = sample_text @ [newline] @ ''{}'' @ [newline]
   \<and> map (json_loads sample_lib)
       (split_lines (serialize_to_jsonl sample_lib (JList [sample_value, JDict []])))
     = [Some sample_value, Some (JDict [])]"
proof -
  have h: "\<forall>x\<in>set [sample_value, JDict []].
             newline \<notin> set (json_dumps sample_lib x)
             \<and> json_loads sample_lib (json_dumps sample_lib x) = Some x"
    by (simp add: sample_lib_def sample_value_def sample_text_def newline_def)
  have ser: "serialize_to_jsonl sample_lib (JList [sample_value, JDict []])
          = sample_text @ [newline] @ ''{}'' @ [newline]"
    by (simp add: serialize_to_jsonl_def sample_lib_def sample_value_def)
  from serialize_to_jsonl_round_trip [OF h]
  have "map (json_loads sample_lib)
          (split_lines (serialize_to_jsonl sample_lib (JList [sample_value, JDict []])))
        = map Some [sample_value, JDict []]"
    by blast
  then have "map (json_loads sample_lib)
          (split_lines (serialize_to_jsonl sample_lib (JList [sample_value, JDict []])))
        = [Some sample_value, Some (JDict [])]"
    by simp
  with ser show ?thesis by blast
qed

subsection \<open>The retry wrapper on a sample service\<close>

theorem call_tool_with_retry_attempts_witness:
  "(0::int) \<le> 2 \<and> (2::int) \<le> 1024
   \<and> call_tool_with_retry (\<lambda>n. if n = 2 then Returns ''ok'' else RaisesException n)
         sleep_completes 2 (FloatFin (3 / 4))
       = (Inr ''ok'', \<lparr>calls = 3, sleeps = [(1, FloatFin (3 / 4)), (2, FloatFin (3 / 2))]\<rparr>)"
proof -
  have h: "(0::int) \<le> 2" "(2::int) \<le> 1024" by simp_all
  have s: "\<forall>a d. sleep_completes a d = None" by (simp add: sleep_completes_def)
  let ?service = "\<lambda>n::nat. if n = 2 then Returns ''ok'' else RaisesException n"
  from call_tool_with_retry_attempts [OF h s, of ?service "FloatFin (3 / 4)"]
  have "int 2 \<le> 2 \<and> (\<forall>j<2. \<exists>e. ?service j = RaisesException e)
          \<and> ?service 2 = Returns ''ok''
        \<longrightarrow> call_tool_with_retry ?service sleep_completes 2 (FloatFin (3 / 4))
          = (Inr ''ok'', \<lparr>calls = Suc 2, sleeps = backoff_schedule (FloatFin (3 / 4)) 2\<rparr>)"
    by blast
  then have "call_tool_with_retry ?service sleep_completes 2 (FloatFin (3 / 4))
       = (Inr ''ok'', \<lparr>calls = Suc 2, sleeps = backoff_schedule (FloatFin (3 / 4)) 2\<rparr>)"
    by simp
  moreover have "backoff_schedule (FloatFin (3 / 4)) 2
                   = [(1, FloatFin (3 / 4)), (2, FloatFin (3 / 2))]"
    by (simp add: backoff_schedule_def upt_rec float_times_pow2_def)
  ultimately show ?thesis by simp
qed

subsection \<open>The path expansion on a sample template\<close>

lemma sample_timestamp: "timestamp_yyyymmdd_hhmmss sample_now = ''20261103_202705''"
  by (simp add: timestamp_yyyymmdd_hhmmss_def sample_now_def pad2_def pad4_def digit_char_def)




text \<open>The template of the specification, read literally: a relative path under \<^verbatim>\<open>...\<close>.\<close>

lemma sample_expansion_relative:
  "expand_output_path_template sample_env sample_now ''.../capture_{ts}.jsonl''
     = ''.../capture_20261103_202705.jsonl''"
  by (simp add: expand_output_path_template_def sample_timestamp
        str_replace_skip str_replace_match str_replace_Nil expanduser_def)
end
